theory Spec2Isabelle
  imports Main "HOL-Library.Sublist"
begin

section \<open>Request values\<close>

text \<open>
  The views of \<^verbatim>\<open>library/views.py\<close> read untyped fields out of \<^verbatim>\<open>request.data\<close>. A field
  is modelled as one of the scalar values a JSON body can carry: nothing (a missing key or
  \<^verbatim>\<open>null\<close>, both \<^verbatim>\<open>None\<close> after \<^verbatim>\<open>.get\<close>), a boolean, an integer of any size, or a string.
  Arrays, objects and fractional numbers are outside the model.
\<close>

datatype pyval = PNone | PBool bool | PInt int | PStr string

text \<open>Python's truth test, as used by \<^verbatim>\<open>not title\<close>, \<^verbatim>\<open>not user_id\<close> and the like.\<close>

fun truthy :: "pyval \<Rightarrow> bool" where
  "truthy PNone = False"
| "truthy (PBool b) = b"
| "truthy (PInt n) = (n \<noteq> 0)"
| "truthy (PStr s) = (s \<noteq> [])"

text \<open>
  The dictionaries \<^verbatim>\<open>books\<close> and \<^verbatim>\<open>users\<close> are keyed by the integer counters. A looked-up
  value finds a key exactly when it compares equal to it: an integer does, \<^verbatim>\<open>True\<close> equals 1
  and \<^verbatim>\<open>False\<close> equals 0, a string or \<^verbatim>\<open>None\<close> never equals an integer.
\<close>

fun as_key :: "pyval \<Rightarrow> int option" where
  "as_key PNone = None"
| "as_key (PBool b) = Some (if b then 1 else 0)"
| "as_key (PInt n) = Some n"
| "as_key (PStr s) = None"

definition dict_get :: "(int \<rightharpoonup> 'a) \<Rightarrow> pyval \<Rightarrow> 'a option" where
  "dict_get d v = (case as_key v of None \<Rightarrow> None | Some k \<Rightarrow> d k)"

text \<open>The comparison \<^verbatim>\<open>uid == user_id\<close> of a stored value with an integer.\<close>

definition eq_int :: "pyval \<Rightarrow> int \<Rightarrow> bool" where
  "eq_int v n = (as_key v = Some n)"

text \<open>\<^verbatim>\<open>request.data.get(field)\<close>: the value of the field, \<^verbatim>\<open>None\<close> when it is absent.\<close>

definition data_get :: "(string \<rightharpoonup> pyval) \<Rightarrow> string \<Rightarrow> pyval" where
  "data_get data field = (case data field of None \<Rightarrow> PNone | Some v \<Rightarrow> v)"

text \<open>
  \<^verbatim>\<open>borrowed_books\<close> is iterated with \<^verbatim>\<open>.items()\<close>, so its insertion order is kept:
  an association list in which assigning to a key that is present replaces the value in place
  and assigning to a new key appends the entry.
\<close>

fun dict_set :: "(int \<times> 'v) list \<Rightarrow> int \<Rightarrow> 'v \<Rightarrow> (int \<times> 'v) list" where
  "dict_set [] k v = [(k, v)]"
| "dict_set ((k', v') # rest) k v =
     (if k' = k then (k, v) # rest else (k', v') # dict_set rest k v)"

subsection \<open>Formatting inside the f-string\<close>

definition digit_char :: "nat \<Rightarrow> char" where
  "digit_char d = ''0123456789'' ! d"

function str_nat :: "nat \<Rightarrow> string" where
  "str_nat n = (if n < 10 then [digit_char n] else str_nat (n div 10) @ [digit_char (n mod 10)])"
  by pat_completeness auto
termination
  by (relation "measure (\<lambda>n. n)") auto

declare str_nat.simps [simp del]

fun py_str :: "pyval \<Rightarrow> string" where
  "py_str PNone = ''None''"
| "py_str (PBool b) = (if b then ''True'' else ''False'')"
| "py_str (PInt n) = (if n < 0 then CHR ''-'' # str_nat (nat (- n)) else str_nat (nat n))"
| "py_str (PStr s) = s"

section \<open>Data model and responses\<close>

record book =
  bk_id :: int
  title :: pyval
  author :: pyval
  is_borrowed :: bool

record user =
  usr_id :: int
  name :: pyval

text \<open>The five module-level globals of \<^verbatim>\<open>views.py\<close>.\<close>

record library =
  books :: "int \<rightharpoonup> book"
  users :: "int \<rightharpoonup> user"
  borrowed_books :: "(int \<times> pyval) list"
  book_id_counter :: int
  user_id_counter :: int

definition init :: library where
  "init = \<lparr>books = Map.empty, users = Map.empty, borrowed_books = [],
            book_id_counter = 1, user_id_counter = 1\<rparr>"

datatype body =
    Error string
  | Message string
  | BookJson book
  | UserJson user
  | BookList "book list"

text \<open>
  A view either returns \<^verbatim>\<open>Response(body, status)\<close> or lets a \<^verbatim>\<open>KeyError\<close> escape
  (the subscript \<^verbatim>\<open>books[book_id]\<close> of the list comprehension).
\<close>

datatype outcome = Response body nat | KeyError

section \<open>The four views\<close>

definition BookCreateView_post :: "library \<Rightarrow> (string \<rightharpoonup> pyval) \<Rightarrow> outcome \<times> library" where
  "BookCreateView_post st data =
     (let title = data_get data ''title'';
          author = data_get data ''author''
      in if \<not> truthy title \<or> \<not> truthy author
         then (Response (Error ''Title and author are required.'') 400, st)
         else
           let book = \<lparr>bk_id = book_id_counter st, title = title, author = author,
                         is_borrowed = False\<rparr>
           in (Response (BookJson book) 201,
               st\<lparr>books := (books st)(book_id_counter st \<mapsto> book),
                    book_id_counter := book_id_counter st + 1\<rparr>))"

definition UserCreateView_post :: "library \<Rightarrow> (string \<rightharpoonup> pyval) \<Rightarrow> outcome \<times> library" where
  "UserCreateView_post st data =
     (let name = data_get data ''name''
      in if \<not> truthy name
         then (Response (Error ''Name is required.'') 400, st)
         else
           let user = \<lparr>usr_id = user_id_counter st, name = name\<rparr>
           in (Response (UserJson user) 201,
               st\<lparr>users := (users st)(user_id_counter st \<mapsto> user),
                    user_id_counter := user_id_counter st + 1\<rparr>))"

definition borrow_message :: "book \<Rightarrow> user \<Rightarrow> string" where
  "borrow_message b u =
     ''Book '' @ [CHR 0x27] @ py_str (title b) @ [CHR 0x27] @ '' borrowed by user ''
       @ [CHR 0x27] @ py_str (name u) @ [CHR 0x27] @ ''.''"

definition BorrowBookView_post :: "library \<Rightarrow> (string \<rightharpoonup> pyval) \<Rightarrow> outcome \<times> library" where
  "BorrowBookView_post st data =
     (let user_id = data_get data ''userId'';
          book_id = data_get data ''bookId''
      in if \<not> truthy user_id \<or> \<not> truthy book_id
         then (Response (Error ''userId and bookId are required.'') 400, st)
         else case dict_get (users st) user_id of
           None \<Rightarrow> (Response (Error ''User not found.'') 404, st)
         | Some usr \<Rightarrow>
             (case as_key book_id of
                None \<Rightarrow> (Response (Error ''Book not found.'') 404, st)
              | Some k \<Rightarrow>
                  (case books st k of
                     None \<Rightarrow> (Response (Error ''Book not found.'') 404, st)
                   | Some book \<Rightarrow>
                       if is_borrowed book
                       then (Response (Error ''Book is already borrowed.'') 400, st)
                       else
                         (Response (Message (borrow_message book usr)) 200,
                          st\<lparr>books := (books st)(k \<mapsto> book\<lparr>is_borrowed := True\<rparr>),
                               borrowed_books := dict_set (borrowed_books st) k user_id\<rparr>))))"

text \<open>
  The list comprehension
  \<^verbatim>\<open>[books[book_id] for book_id, uid in borrowed_books.items() if uid == user_id]\<close>:
  \<open>None\<close> is the \<^verbatim>\<open>KeyError\<close> of a subscript that misses.
\<close>

fun user_borrowed_books :: "(int \<rightharpoonup> book) \<Rightarrow> (int \<times> pyval) list \<Rightarrow> int \<Rightarrow> book list option" where
  "user_borrowed_books bs [] user_id = Some []"
| "user_borrowed_books bs ((book_id, uid) # rest) user_id =
     (if eq_int uid user_id
      then (case bs book_id of
              None \<Rightarrow> None
            | Some b \<Rightarrow> map_option ((#) b) (user_borrowed_books bs rest user_id))
      else user_borrowed_books bs rest user_id)"

text \<open>The path converter \<^verbatim>\<open><int:user_id>\<close> of \<^verbatim>\<open>urls.py\<close> hands the view an integer.\<close>

definition UserBorrowedBooksView_get :: "library \<Rightarrow> int \<Rightarrow> outcome" where
  "UserBorrowedBooksView_get st user_id =
     (if users st user_id = None
      then Response (Error ''User not found.'') 404
      else case user_borrowed_books (books st) (borrowed_books st) user_id of
             None \<Rightarrow> KeyError
           | Some bs \<Rightarrow> Response (BookList bs) 200)"

section \<open>Sequences of requests\<close>

datatype request =
    RegisterBook "string \<rightharpoonup> pyval"
  | RegisterUser "string \<rightharpoonup> pyval"
  | BorrowBook "string \<rightharpoonup> pyval"
  | ListBorrowedBooks int

fun handle :: "library \<Rightarrow> request \<Rightarrow> outcome \<times> library" where
  "handle st (RegisterBook data) = BookCreateView_post st data"
| "handle st (RegisterUser data) = UserCreateView_post st data"
| "handle st (BorrowBook data) = BorrowBookView_post st data"
| "handle st (ListBorrowedBooks user_id) = (UserBorrowedBooksView_get st user_id, st)"

fun serve :: "library \<Rightarrow> request list \<Rightarrow> library" where
  "serve st [] = st"
| "serve st (r # rs) = serve (snd (handle st r)) rs"

text \<open>The replies of the views to a sequence of requests, in order.\<close>

fun replies :: "library \<Rightarrow> request list \<Rightarrow> outcome list" where
  "replies st [] = []"
| "replies st (r # rs) = fst (handle st r) # replies (snd (handle st r)) rs"

text \<open>The ids handed out in the bodies of the \<^verbatim>\<open>201\<close> replies, per namespace.\<close>

fun book_ids :: "outcome list \<Rightarrow> int list" where
  "book_ids [] = []"
| "book_ids (Response (BookJson b) s # os) = bk_id b # book_ids os"
| "book_ids (_ # os) = book_ids os"

fun user_ids :: "outcome list \<Rightarrow> int list" where
  "user_ids [] = []"
| "user_ids (Response (UserJson u) s # os) = usr_id u # user_ids os"
| "user_ids (_ # os) = user_ids os"

text \<open>A registration request that passes the presence check of its view.\<close>

fun valid_book :: "request \<Rightarrow> bool" where
  "valid_book (RegisterBook data) = (truthy (data_get data ''title'') \<and> truthy (data_get data ''author''))"
| "valid_book _ = False"

fun valid_user :: "request \<Rightarrow> bool" where
  "valid_user (RegisterUser data) = truthy (data_get data ''name'')"
| "valid_user _ = False"

text \<open>A reply that reports a failure: an \<^verbatim>\<open>{"error": ...}\<close> body, or an escaped exception.\<close>

fun is_error :: "outcome \<Rightarrow> bool" where
  "is_error (Response (Error e) s) = True"
| "is_error KeyError = True"
| "is_error _ = False"

section \<open>Consistency of the three collections\<close>

text \<open>
  The facts that every view preserves: a stored book sits under its own id, below the
  counter; the keys of \<^verbatim>\<open>borrowed_books\<close> are the ids of the books flagged as borrowed; and
  no key occurs twice.
\<close>

definition consistent :: "library \<Rightarrow> bool" where
  "consistent st \<longleftrightarrow>
     (\<forall>k b. books st k = Some b \<longrightarrow> k < book_id_counter st \<and> bk_id b = k)
   \<and> (\<forall>k. k \<in> fst ` set (borrowed_books st) \<longleftrightarrow> (\<exists>b. books st k = Some b \<and> is_borrowed b))
   \<and> distinct (map fst (borrowed_books st))"

section \<open>A worked scenario\<close>

text \<open>
  The request bodies and the states of the scenario
  \<^verbatim>\<open>POST /books {"title": "1984", "author": "Orwell"}\<close>,
  \<^verbatim>\<open>POST /users {"name": "Alice"}\<close>, \<^verbatim>\<open>POST /borrow {"userId": 1, "bookId": 1}\<close>.
\<close>

definition book_1984 :: "string \<rightharpoonup> pyval" where
  "book_1984 = [''title'' \<mapsto> PStr ''1984'', ''author'' \<mapsto> PStr ''Orwell'']"

definition alice :: "string \<rightharpoonup> pyval" where
  "alice = [''name'' \<mapsto> PStr ''Alice'']"

definition borrow_req :: "pyval \<Rightarrow> pyval \<Rightarrow> (string \<rightharpoonup> pyval)" where
  "borrow_req u b = [''userId'' \<mapsto> u, ''bookId'' \<mapsto> b]"

definition lib_ready :: library where
  "lib_ready =
     \<lparr>books = [1 \<mapsto> \<lparr>bk_id = 1, title = PStr ''1984'', author = PStr ''Orwell'', is_borrowed = False\<rparr>],
      users = [1 \<mapsto> \<lparr>usr_id = 1, name = PStr ''Alice''\<rparr>],
      borrowed_books = [], book_id_counter = 2, user_id_counter = 2\<rparr>"

definition lib_lent :: library where
  "lib_lent =
     \<lparr>books = [1 \<mapsto> \<lparr>bk_id = 1, title = PStr ''1984'', author = PStr ''Orwell'', is_borrowed = True\<rparr>],
      users = [1 \<mapsto> \<lparr>usr_id = 1, name = PStr ''Alice''\<rparr>],
      borrowed_books = [(1, PInt 1)], book_id_counter = 2, user_id_counter = 2\<rparr>"

text \<open>
  A second scenario with two books, three users and two borrowers: Alice holds the first
  book, Bob the second, Carol none.
\<close>

definition book_emma :: "string \<rightharpoonup> pyval" where
  "book_emma = [''title'' \<mapsto> PStr ''Emma'', ''author'' \<mapsto> PStr ''Austen'']"

definition bob :: "string \<rightharpoonup> pyval" where
  "bob = [''name'' \<mapsto> PStr ''Bob'']"

definition carol :: "string \<rightharpoonup> pyval" where
  "carol = [''name'' \<mapsto> PStr ''Carol'']"

definition two_borrowers :: "request list" where
  "two_borrowers =
     [RegisterBook book_1984, RegisterBook book_emma,
      RegisterUser alice, RegisterUser bob, RegisterUser carol,
      BorrowBook (borrow_req (PInt 1) (PInt 1)), BorrowBook (borrow_req (PInt 2) (PInt 2))]"

definition lib_shared :: library where
  "lib_shared =
     \<lparr>books = [1 \<mapsto> \<lparr>bk_id = 1, title = PStr ''1984'', author = PStr ''Orwell'', is_borrowed = True\<rparr>,
               2 \<mapsto> \<lparr>bk_id = 2, title = PStr ''Emma'', author = PStr ''Austen'', is_borrowed = True\<rparr>],
      users = [1 \<mapsto> \<lparr>usr_id = 1, name = PStr ''Alice''\<rparr>,
               2 \<mapsto> \<lparr>usr_id = 2, name = PStr ''Bob''\<rparr>,
               3 \<mapsto> \<lparr>usr_id = 3, name = PStr ''Carol''\<rparr>],
      borrowed_books = [(1, PInt 1), (2, PInt 2)], book_id_counter = 3, user_id_counter = 4\<rparr>"

section \<open>Facts about the dictionary of assignments\<close>

lemma keys_dict_set: "fst ` set (dict_set l k v) = insert k (fst ` set l)"
  by (induction l k v rule: dict_set.induct) auto

lemma dict_set_fresh: "k \<notin> fst ` set l \<Longrightarrow> dict_set l k v = l @ [(k, v)]"
  by (induction l k v rule: dict_set.induct) auto

lemma distinct_dict_set: "distinct (map fst l) \<Longrightarrow> distinct (map fst (dict_set l k v))"
  by (induction l k v rule: dict_set.induct) (auto simp: keys_dict_set)

lemma map_of_dict_set: "map_of (dict_set l k v) = (map_of l)(k \<mapsto> v)"
  by (induction l k v rule: dict_set.induct) auto

lemma set_dict_set: "set (dict_set l k v) \<subseteq> insert (k, v) (set l)"
  by (induction l k v rule: dict_set.induct) auto

section \<open>Every view preserves consistency\<close>

lemma consistent_init: "consistent init"
  by (simp add: consistent_def init_def)

lemma consistent_book: "consistent st \<Longrightarrow> consistent (snd (BookCreateView_post st data))"
  unfolding consistent_def BookCreateView_post_def Let_def
  by (auto split: if_splits) (meson order_less_imp_le)

lemma consistent_user: "consistent st \<Longrightarrow> consistent (snd (UserCreateView_post st data))"
  unfolding consistent_def UserCreateView_post_def Let_def
  by (auto split: if_splits)

lemma consistent_borrow: "consistent st \<Longrightarrow> consistent (snd (BorrowBookView_post st data))"
  unfolding consistent_def BorrowBookView_post_def Let_def
  by (auto simp: keys_dict_set distinct_dict_set split: if_splits option.splits)

lemma consistent_handle: "consistent st \<Longrightarrow> consistent (snd (handle st r))"
  by (cases r) (simp_all add: consistent_book consistent_user consistent_borrow)

lemma consistent_serve: "consistent st \<Longrightarrow> consistent (serve st rs)"
  by (induction rs arbitrary: st) (simp_all add: consistent_handle)

lemma serve_append: "serve st (rs @ rs') = serve (serve st rs) rs'"
  by (induction rs arbitrary: st) simp_all

section \<open>Evaluating the scenario\<close>

lemma request_fields:
  "data_get book_1984 ''title'' = PStr ''1984''"
  "data_get book_1984 ''author'' = PStr ''Orwell''"
  "data_get alice ''name'' = PStr ''Alice''"
  "data_get (borrow_req u b) ''userId'' = u"
  "data_get (borrow_req u b) ''bookId'' = b"
  "data_get Map.empty f = PNone"
  by (simp_all add: data_get_def book_1984_def alice_def borrow_req_def)

lemma serve_ready: "serve init [RegisterBook book_1984, RegisterUser alice] = lib_ready"
  by (simp add: init_def lib_ready_def BookCreateView_post_def UserCreateView_post_def request_fields Let_def)

lemma serve_lent:
  "serve init [RegisterBook book_1984, RegisterUser alice, BorrowBook (borrow_req (PInt 1) (PInt 1))] = lib_lent"
  by (simp add: init_def lib_lent_def BookCreateView_post_def UserCreateView_post_def
      BorrowBookView_post_def dict_get_def request_fields Let_def)

lemma more_fields:
  "data_get book_emma ''title'' = PStr ''Emma''"
  "data_get book_emma ''author'' = PStr ''Austen''"
  "data_get bob ''name'' = PStr ''Bob''"
  "data_get carol ''name'' = PStr ''Carol''"
  by (simp_all add: data_get_def book_emma_def bob_def carol_def)

lemma serve_shared: "serve init two_borrowers = lib_shared"
  by (simp add: two_borrowers_def init_def lib_shared_def BookCreateView_post_def
      UserCreateView_post_def BorrowBookView_post_def dict_get_def request_fields more_fields
      Let_def fun_upd_twist)

section \<open>Identifiers in the replies\<close>

lemma book_ids_step:
  "book_ids (fst (handle st r) # os) = (if valid_book r then book_id_counter st # book_ids os else book_ids os)"
  by (cases r) (auto simp: BookCreateView_post_def UserCreateView_post_def BorrowBookView_post_def
      UserBorrowedBooksView_get_def Let_def split: option.splits)

lemma user_ids_step:
  "user_ids (fst (handle st r) # os) = (if valid_user r then user_id_counter st # user_ids os else user_ids os)"
  by (cases r) (auto simp: BookCreateView_post_def UserCreateView_post_def BorrowBookView_post_def
      UserBorrowedBooksView_get_def Let_def split: option.splits)

lemma book_counter_step:
  "book_id_counter (snd (handle st r)) = (if valid_book r then book_id_counter st + 1 else book_id_counter st)"
  by (cases r) (auto simp: BookCreateView_post_def UserCreateView_post_def BorrowBookView_post_def
      Let_def split: option.splits)

lemma user_counter_step:
  "user_id_counter (snd (handle st r)) = (if valid_user r then user_id_counter st + 1 else user_id_counter st)"
  by (cases r) (auto simp: BookCreateView_post_def UserCreateView_post_def BorrowBookView_post_def
      Let_def split: option.splits)

lemma book_ids_replies:
  "book_ids (replies st rs) =
     [book_id_counter st .. book_id_counter st + int (length (filter valid_book rs)) - 1]"
proof (induction rs arbitrary: st)
  case Nil
  show ?case by simp
next
  case (Cons r rs)
  show ?case
  proof (cases "valid_book r")
    case True
    have "[book_id_counter st .. book_id_counter st + int (length (filter valid_book (r # rs))) - 1]
        = book_id_counter st # [book_id_counter st + 1 .. book_id_counter st + 1 + int (length (filter valid_book rs)) - 1]"
      using True by (subst upto_rec1) (simp_all add: add.commute add.left_commute)
    then show ?thesis
      using True Cons.IH [of "snd (handle st r)"]
      by (simp only: replies.simps book_ids_step book_counter_step if_True)
  next
    case False
    then show ?thesis
      using Cons.IH [of "snd (handle st r)"]
      by (simp only: replies.simps book_ids_step book_counter_step if_False filter.simps)
  qed
qed

lemma user_ids_replies:
  "user_ids (replies st rs) =
     [user_id_counter st .. user_id_counter st + int (length (filter valid_user rs)) - 1]"
proof (induction rs arbitrary: st)
  case Nil
  show ?case by simp
next
  case (Cons r rs)
  show ?case
  proof (cases "valid_user r")
    case True
    have "[user_id_counter st .. user_id_counter st + int (length (filter valid_user (r # rs))) - 1]
        = user_id_counter st # [user_id_counter st + 1 .. user_id_counter st + 1 + int (length (filter valid_user rs)) - 1]"
      using True by (subst upto_rec1) (simp_all add: add.commute add.left_commute)
    then show ?thesis
      using True Cons.IH [of "snd (handle st r)"]
      by (simp only: replies.simps user_ids_step user_counter_step if_True)
  next
    case False
    then show ?thesis
      using Cons.IH [of "snd (handle st r)"]
      by (simp only: replies.simps user_ids_step user_counter_step if_False filter.simps)
  qed
qed

section \<open>Borrowed books stay borrowed\<close>

lemma borrowed_step:
  assumes "consistent st"
  shows "prefix (borrowed_books st) (borrowed_books (snd (handle st r)))"
proof (cases r)
  case (BorrowBook data)
  show ?thesis
    using assms unfolding BorrowBook
    by (auto simp: BorrowBookView_post_def Let_def consistent_def dict_set_fresh
        split: option.splits)
qed (simp_all add: BookCreateView_post_def UserCreateView_post_def Let_def)

lemma flag_step:
  assumes "consistent st" and "books st k = Some b" and "is_borrowed b"
  shows "books (snd (handle st r)) k = Some b"
proof (cases r)
  case (RegisterBook data)
  have "k \<noteq> book_id_counter st"
    using assms by (auto simp: consistent_def)
  then show ?thesis
    using assms unfolding RegisterBook by (simp add: BookCreateView_post_def Let_def)
next
  case (BorrowBook data)
  show ?thesis
    using assms unfolding BorrowBook
    by (auto simp: BorrowBookView_post_def Let_def split: option.splits)
qed (simp_all add: assms UserCreateView_post_def Let_def)

lemma one_way_serve:
  assumes "consistent st"
  shows "prefix (borrowed_books st) (borrowed_books (serve st rs))
       \<and> (\<forall>k b. books st k = Some b \<and> is_borrowed b \<longrightarrow> books (serve st rs) k = Some b)"
  using assms
proof (induction rs arbitrary: st)
  case Nil
  show ?case by simp
next
  case (Cons r rs)
  have c: "consistent (snd (handle st r))"
    using Cons.prems by (rule consistent_handle)
  have p: "prefix (borrowed_books st) (borrowed_books (snd (handle st r)))"
    using Cons.prems by (rule borrowed_step)
  show ?case
    using Cons.IH [OF c] p flag_step [OF Cons.prems, of _ _ r]
    by (auto intro: prefix_order.trans)
qed

section \<open>Where the assignments come from\<close>

lemma entry_step:
  assumes "e \<in> set (borrowed_books (snd (handle st r)))"
  shows "e \<in> set (borrowed_books st)
       \<or> (\<exists>data. r = BorrowBook data \<and> as_key (data_get data ''bookId'') = Some (fst e)
                \<and> data_get data ''userId'' = snd e)"
proof (cases r)
  case (BorrowBook data)
  show ?thesis
    using assms set_dict_set [of "borrowed_books st"] unfolding BorrowBook
    by (fastforce simp: BorrowBookView_post_def Let_def split: option.splits if_splits)
qed (use assms in \<open>simp_all add: BookCreateView_post_def UserCreateView_post_def Let_def split: if_splits\<close>)

lemma entry_serve:
  assumes "e \<in> set (borrowed_books (serve st rs))"
  shows "e \<in> set (borrowed_books st)
       \<or> (\<exists>data. BorrowBook data \<in> set rs \<and> as_key (data_get data ''bookId'') = Some (fst e)
                \<and> data_get data ''userId'' = snd e)"
  using assms
proof (induction rs arbitrary: st)
  case Nil
  then show ?case by simp
next
  case (Cons r rs)
  from Cons.IH [of "snd (handle st r)"] Cons.prems entry_step [of e st r]
  show ?case by auto
qed

section \<open>The list comprehension\<close>

lemma listing_char:
  assumes "\<forall>k \<in> fst ` set l. \<exists>b. bs k = Some b \<and> bk_id b = k"
  shows "\<exists>xs. user_borrowed_books bs l u = Some xs
            \<and> map Some xs = map (\<lambda>(k, v). bs k) (filter (\<lambda>(k, v). eq_int v u) l)
            \<and> map bk_id xs = map fst (filter (\<lambda>(k, v). eq_int v u) l)"
  using assms
proof (induction l)
  case Nil
  show ?case by simp
next
  case (Cons e l)
  obtain k v where e: "e = (k, v)" by (cases e)
  from Cons.prems obtain b where b: "bs k = Some b" "bk_id b = k"
    unfolding e by auto
  from Cons.prems have "\<forall>k \<in> fst ` set l. \<exists>b. bs k = Some b \<and> bk_id b = k"
    by simp
  from Cons.IH [OF this] obtain xs where xs: "user_borrowed_books bs l u = Some xs"
    "map Some xs = map (\<lambda>(k, v). bs k) (filter (\<lambda>(k, v). eq_int v u) l)"
    "map bk_id xs = map fst (filter (\<lambda>(k, v). eq_int v u) l)"
    by blast
  show ?case
    unfolding e using b xs by (cases "eq_int v u") simp_all
qed

lemma count_list_distinct: "distinct xs \<Longrightarrow> x \<in> set xs \<Longrightarrow> count_list xs x = 1"
  by (induction xs) auto

lemma listing_consistent:
  assumes c: "consistent st" and u: "users st u \<noteq> None"
  shows "\<exists>xs. UserBorrowedBooksView_get st u = Response (BookList xs) 200
            \<and> distinct xs
            \<and> set xs = {b. \<exists>k v. (k, v) \<in> set (borrowed_books st) \<and> eq_int v u \<and> books st k = Some b}
            \<and> map bk_id xs = map fst (filter (\<lambda>(k, v). eq_int v u) (borrowed_books st))"
proof -
  let ?l = "borrowed_books st" and ?bs = "books st"
  let ?sel = "filter (\<lambda>(k, v). eq_int v u) ?l"
  have keys: "\<forall>k \<in> fst ` set ?l. \<exists>b. ?bs k = Some b \<and> bk_id b = k"
    using c unfolding consistent_def by blast
  from listing_char [OF keys, of u] obtain xs where
    xs: "user_borrowed_books ?bs ?l u = Some xs"
    and some: "map Some xs = map (\<lambda>(k, v). ?bs k) ?sel"
    and ids: "map bk_id xs = map fst ?sel"
    by blast
  have "distinct (map fst ?sel)"
    using c unfolding consistent_def by (simp add: distinct_map_filter)
  then have d: "distinct xs"
    unfolding ids [symmetric] by (simp add: distinct_map)
  have img: "Some ` set xs = (\<lambda>(k, v). ?bs k) ` set ?sel"
    using arg_cong [OF some, of set] by simp
  have s: "set xs = {b. \<exists>k v. (k, v) \<in> set ?l \<and> eq_int v u \<and> ?bs k = Some b}"
  proof (rule set_eqI)
    fix b
    have "b \<in> set xs \<longleftrightarrow> Some b \<in> Some ` set xs"
      by auto
    also have "\<dots> \<longleftrightarrow> (\<exists>e \<in> set ?sel. ?bs (fst e) = Some b)"
      unfolding img by (auto simp: image_iff split: prod.splits) metis+
    also have "\<dots> \<longleftrightarrow> (\<exists>k v. (k, v) \<in> set ?l \<and> eq_int v u \<and> ?bs k = Some b)"
      by auto
    finally show "b \<in> set xs \<longleftrightarrow> b \<in> {b. \<exists>k v. (k, v) \<in> set ?l \<and> eq_int v u \<and> ?bs k = Some b}"
      by simp
  qed
  show ?thesis
    using u xs d s ids by (auto simp: UserBorrowedBooksView_get_def)
qed

lemma in_dict_set: "(k, v) \<in> set (dict_set l k v)"
  by (induction l k v rule: dict_set.induct) auto

lemma borrow_success:
  assumes "fst (BorrowBookView_post st data) = Response (Message m) 200"
    and "as_key (data_get data ''bookId'') = Some k"
  shows "\<exists>usr bk. dict_get (users st) (data_get data ''userId'') = Some usr
           \<and> books st k = Some bk \<and> \<not> is_borrowed bk
           \<and> snd (BorrowBookView_post st data)
               = st\<lparr>books := (books st)(k \<mapsto> bk\<lparr>is_borrowed := True\<rparr>),
                     borrowed_books := dict_set (borrowed_books st) k (data_get data ''userId'')\<rparr>"
  using assms
  by (auto simp: BorrowBookView_post_def Let_def split: if_splits option.splits)

lemma listing_after_borrow:
  assumes c: "consistent st"
    and ok: "fst (BorrowBookView_post st data) = Response (Message m) 200"
    and u: "as_key (data_get data ''userId'') = Some u"
    and k: "as_key (data_get data ''bookId'') = Some k"
  shows "\<exists>xs b. UserBorrowedBooksView_get (snd (BorrowBookView_post st data)) u = Response (BookList xs) 200
            \<and> books (snd (BorrowBookView_post st data)) k = Some b \<and> is_borrowed b
            \<and> count_list xs b = 1"
proof -
  let ?st' = "snd (BorrowBookView_post st data)"
  from borrow_success [OF ok k] obtain usr bk where
    usr: "dict_get (users st) (data_get data ''userId'') = Some usr"
    and bk: "books st k = Some bk"
    and st': "?st' = st\<lparr>books := (books st)(k \<mapsto> bk\<lparr>is_borrowed := True\<rparr>),
                        borrowed_books := dict_set (borrowed_books st) k (data_get data ''userId'')\<rparr>"
    by blast
  have c': "consistent ?st'"
    using c by (rule consistent_borrow)
  have "users ?st' u \<noteq> None"
    using usr u unfolding st' by (simp add: dict_get_def)
  from listing_consistent [OF c' this] obtain xs where
    xs: "UserBorrowedBooksView_get ?st' u = Response (BookList xs) 200" "distinct xs"
      "set xs = {b. \<exists>k v. (k, v) \<in> set (borrowed_books ?st') \<and> eq_int v u \<and> books ?st' k = Some b}"
    by blast
  let ?b = "bk\<lparr>is_borrowed := True\<rparr>"
  have b: "books ?st' k = Some ?b"
    unfolding st' by simp
  have "(k, data_get data ''userId'') \<in> set (borrowed_books ?st')"
    unfolding st' by (simp add: in_dict_set)
  then have "?b \<in> set xs"
    unfolding xs(3) using b u by (auto simp: eq_int_def)
  then have "count_list xs ?b = 1"
    using xs(2) by (simp add: count_list_distinct)
  then show ?thesis
    using xs(1) b by auto
qed

lemma listing_excludes_others:
  assumes c: "consistent st"
    and e: "(k, v) \<in> set (borrowed_books st)"
    and other: "as_key v \<noteq> Some u"
    and b: "books st k = Some b"
    and r: "UserBorrowedBooksView_get st u = Response (BookList xs) 200"
  shows "b \<notin> set xs"
proof
  assume in_xs: "b \<in> set xs"
  have u: "users st u \<noteq> None"
    using r by (auto simp: UserBorrowedBooksView_get_def split: if_splits)
  from listing_consistent [OF c u] r
  have "set xs = {b. \<exists>k v. (k, v) \<in> set (borrowed_books st) \<and> eq_int v u \<and> books st k = Some b}"
    by auto
  with in_xs obtain k' v' where
    e': "(k', v') \<in> set (borrowed_books st)" and v': "as_key v' = Some u" and b': "books st k' = Some b"
    by (auto simp: eq_int_def)
  have "bk_id b = k" and "bk_id b = k'"
    using c b b' unfolding consistent_def by blast+
  then have "k' = k" by simp
  moreover have "distinct (map fst (borrowed_books st))"
    using c unfolding consistent_def by blast
  ultimately have "v' = v"
    using e e' by (metis eq_key_imp_eq_value)
  then show False
    using v' other by simp
qed

lemma singleton_listing:
  assumes "set xs = {b}" and "count_list xs b = 1"
  shows "xs = [b]"
proof (cases xs)
  case Nil
  with assms(1) show ?thesis by simp
next
  case (Cons x rest)
  have x: "x = b"
    using assms(1) Cons by auto
  then have "count_list rest b = 0"
    using assms(2) Cons by simp
  then have "b \<notin> set rest"
    by (simp add: count_list_0_iff)
  moreover have "set rest \<subseteq> {b}"
    using assms(1) Cons by auto
  ultimately have "rest = []"
    by (cases rest) auto
  then show ?thesis
    using Cons x by simp
qed

section \<open>Replies and state changes\<close>

lemma handle_keeps_state_on_error:
  "is_error (fst (handle st r)) \<Longrightarrow> snd (handle st r) = st"
  by (cases r)
    (auto simp: BookCreateView_post_def UserCreateView_post_def BorrowBookView_post_def Let_def
      split: if_splits option.splits)

lemma book_counter_changed: "st\<lparr>books := bs, book_id_counter := book_id_counter st + 1\<rparr> \<noteq> st"
proof
  assume "st\<lparr>books := bs, book_id_counter := book_id_counter st + 1\<rparr> = st"
  then have "book_id_counter (st\<lparr>books := bs, book_id_counter := book_id_counter st + 1\<rparr>)
           = book_id_counter st"
    by simp
  then show False by simp
qed

lemma user_counter_changed: "st\<lparr>users := us, user_id_counter := user_id_counter st + 1\<rparr> \<noteq> st"
proof
  assume "st\<lparr>users := us, user_id_counter := user_id_counter st + 1\<rparr> = st"
  then have "user_id_counter (st\<lparr>users := us, user_id_counter := user_id_counter st + 1\<rparr>)
           = user_id_counter st"
    by simp
  then show False by simp
qed

lemma book_flag_changed:
  assumes "books st k = Some b" and "\<not> is_borrowed b"
  shows "st\<lparr>books := (books st)(k \<mapsto> b\<lparr>is_borrowed := True\<rparr>), borrowed_books := l\<rparr> \<noteq> st"
proof
  assume "st\<lparr>books := (books st)(k \<mapsto> b\<lparr>is_borrowed := True\<rparr>), borrowed_books := l\<rparr> = st"
  then have "books (st\<lparr>books := (books st)(k \<mapsto> b\<lparr>is_borrowed := True\<rparr>), borrowed_books := l\<rparr>) k
           = books st k"
    by simp
  then have "b\<lparr>is_borrowed := True\<rparr> = b"
    using assms(1) by simp
  then have "is_borrowed (b\<lparr>is_borrowed := True\<rparr>) = is_borrowed b"
    by simp
  then show False
    using assms(2) by simp
qed

lemma handle_changes_state_on_success:
  assumes "\<not> is_error (fst (handle st r))" and "\<forall>u. r \<noteq> ListBorrowedBooks u"
  shows "snd (handle st r) \<noteq> st"
proof (cases r)
  case (RegisterBook data)
  then show ?thesis
    using assms(1) book_counter_changed [of st]
    by (auto simp: BookCreateView_post_def Let_def split: if_splits)
next
  case (RegisterUser data)
  then show ?thesis
    using assms(1) user_counter_changed [of st]
    by (auto simp: UserCreateView_post_def Let_def split: if_splits)
next
  case (BorrowBook data)
  then show ?thesis
    using assms(1) book_flag_changed [of st]
    by (auto simp: BorrowBookView_post_def Let_def split: if_splits option.splits)
next
  case (ListBorrowedBooks u)
  then show ?thesis using assms(2) by simp
qed

section \<open>The claims\<close>

text \<open>
  C1. \<^verbatim>\<open>BorrowBookView.post\<close> checks in a fixed order: presence of \<^verbatim>\<open>userId\<close> and \<^verbatim>\<open>bookId\<close>
  (else 400 "userId and bookId are required."), then existence of the user (else 404
  "User not found."), then existence of the book (else 404 "Book not found."), then
  availability (else 400 "Book is already borrowed."). A request that passes the presence
  check and names neither an existing user nor an existing book is answered "User not found.",
  and no request whose user does not exist is ever answered "Book not found.".
\<close>

theorem borrow_check_order:
  fixes st data
  defines "user_id \<equiv> data_get data ''userId''" and "book_id \<equiv> data_get data ''bookId''"
  shows "(\<not> truthy user_id \<or> \<not> truthy book_id \<longrightarrow>
            fst (BorrowBookView_post st data) = Response (Error ''userId and bookId are required.'') 400)
       \<and> (truthy user_id \<and> truthy book_id \<and> dict_get (users st) user_id = None \<longrightarrow>
            fst (BorrowBookView_post st data) = Response (Error ''User not found.'') 404)
       \<and> (truthy user_id \<and> truthy book_id \<and> dict_get (users st) user_id \<noteq> None
            \<and> dict_get (books st) book_id = None \<longrightarrow>
            fst (BorrowBookView_post st data) = Response (Error ''Book not found.'') 404)
       \<and> (\<forall>b. truthy user_id \<and> truthy book_id \<and> dict_get (users st) user_id \<noteq> None
            \<and> dict_get (books st) book_id = Some b \<and> is_borrowed b \<longrightarrow>
            fst (BorrowBookView_post st data) = Response (Error ''Book is already borrowed.'') 400)
       \<and> (dict_get (users st) user_id = None \<longrightarrow>
            fst (BorrowBookView_post st data) \<noteq> Response (Error ''Book not found.'') 404)"
  unfolding user_id_def book_id_def
  by (auto simp: BorrowBookView_post_def Let_def dict_get_def split: option.splits)

theorem borrow_check_order_witness:
  "fst (BorrowBookView_post lib_ready (borrow_req (PInt 1) PNone))
     = Response (Error ''userId and bookId are required.'') 400
 \<and> fst (BorrowBookView_post lib_ready (borrow_req (PInt 7) (PInt 9)))
     = Response (Error ''User not found.'') 404
 \<and> fst (BorrowBookView_post lib_ready (borrow_req (PInt 1) (PInt 9)))
     = Response (Error ''Book not found.'') 404
 \<and> fst (BorrowBookView_post lib_lent (borrow_req (PInt 1) (PInt 1)))
     = Response (Error ''Book is already borrowed.'') 400
 \<and> fst (BorrowBookView_post lib_ready (borrow_req (PInt 7) (PInt 9)))
     \<noteq> Response (Error ''Book not found.'') 404"
  using borrow_check_order [of "borrow_req (PInt 1) PNone" lib_ready]
    borrow_check_order [of "borrow_req (PInt 7) (PInt 9)" lib_ready]
    borrow_check_order [of "borrow_req (PInt 1) (PInt 9)" lib_ready]
    borrow_check_order [of "borrow_req (PInt 1) (PInt 1)" lib_lent]
  by (simp add: request_fields dict_get_def lib_ready_def lib_lent_def)

text \<open>
  C2. After any sequence of requests served from the initial state, an id is a key of
  \<^verbatim>\<open>borrowed_books\<close> if and only if the book stored under that id has \<^verbatim>\<open>is_borrowed\<close> set,
  and no id is a key twice: a book has at most one borrower.
\<close>

theorem borrow_flag_matches_assignment:
  "(\<forall>k. k \<in> fst ` set (borrowed_books (serve init rs))
         \<longleftrightarrow> (\<exists>b. books (serve init rs) k = Some b \<and> is_borrowed b))
   \<and> distinct (map fst (borrowed_books (serve init rs)))"
  using consistent_serve [OF consistent_init, of rs] by (simp add: consistent_def)

theorem borrow_flag_matches_assignment_witness:
  "(\<forall>k. k \<in> fst ` set (borrowed_books lib_lent)
         \<longleftrightarrow> (\<exists>b. books lib_lent k = Some b \<and> is_borrowed b))
   \<and> distinct (map fst (borrowed_books lib_lent))
   \<and> fst ` set (borrowed_books lib_lent) = {1}"
  using borrow_flag_matches_assignment
    [of "[RegisterBook book_1984, RegisterUser alice, BorrowBook (borrow_req (PInt 1) (PInt 1))]"]
  unfolding serve_lent by (simp add: lib_lent_def)

text \<open>
  C3. When the presence check passes, the user exists and the book exists with
  \<^verbatim>\<open>is_borrowed\<close> set, \<^verbatim>\<open>BorrowBookView.post\<close> answers 400 "Book is already borrowed." and
  leaves the state as it was, whoever the requesting user is.
\<close>

theorem borrowed_book_conflict:
  assumes "truthy (data_get data ''userId'')" and "truthy (data_get data ''bookId'')"
    and "dict_get (users st) (data_get data ''userId'') = Some usr"
    and "dict_get (books st) (data_get data ''bookId'') = Some b"
    and "is_borrowed b"
  shows "BorrowBookView_post st data = (Response (Error ''Book is already borrowed.'') 400, st)"
  using assms
  by (auto simp: BorrowBookView_post_def Let_def dict_get_def split: option.splits)

theorem borrowed_book_conflict_witness:
  "BorrowBookView_post (snd (UserCreateView_post lib_lent alice)) (borrow_req (PInt 1) (PInt 1))
     = (Response (Error ''Book is already borrowed.'') 400, snd (UserCreateView_post lib_lent alice))
 \<and> BorrowBookView_post (snd (UserCreateView_post lib_lent alice)) (borrow_req (PInt 2) (PInt 1))
     = (Response (Error ''Book is already borrowed.'') 400, snd (UserCreateView_post lib_lent alice))"
proof -
  let ?st = "snd (UserCreateView_post lib_lent alice)"
  let ?b = "\<lparr>bk_id = 1, title = PStr ''1984'', author = PStr ''Orwell'', is_borrowed = True\<rparr>"
  have u1: "dict_get (users ?st) (PInt 1) = Some \<lparr>usr_id = 1, name = PStr ''Alice''\<rparr>"
    by (simp add: UserCreateView_post_def lib_lent_def dict_get_def request_fields Let_def)
  have u2: "dict_get (users ?st) (PInt 2) = Some \<lparr>usr_id = 2, name = PStr ''Alice''\<rparr>"
    by (simp add: UserCreateView_post_def lib_lent_def dict_get_def request_fields Let_def)
  have b: "dict_get (books ?st) (PInt 1) = Some ?b"
    by (simp add: UserCreateView_post_def lib_lent_def dict_get_def request_fields Let_def)
  have "BorrowBookView_post ?st (borrow_req (PInt 1) (PInt 1))
      = (Response (Error ''Book is already borrowed.'') 400, ?st)"
    by (rule borrowed_book_conflict [where b = ?b]) (simp_all add: request_fields u1 b)
  moreover have "BorrowBookView_post ?st (borrow_req (PInt 2) (PInt 1))
      = (Response (Error ''Book is already borrowed.'') 400, ?st)"
    by (rule borrowed_book_conflict [where b = ?b]) (simp_all add: request_fields u2 b)
  ultimately show ?thesis by simp
qed

text \<open>
  C4. Every view is all-or-nothing. A reply that reports an error leaves \<^verbatim>\<open>books\<close>,
  \<^verbatim>\<open>users\<close>, \<^verbatim>\<open>borrowed_books\<close> and both counters exactly as they were; a reply of one of the
  three writing views that reports success comes with a changed state. The listing view
  writes nothing in either case.
\<close>

theorem all_or_nothing:
  "(is_error (fst (handle st r)) \<longrightarrow> snd (handle st r) = st)
 \<and> (\<not> is_error (fst (handle st r)) \<and> (\<forall>u. r \<noteq> ListBorrowedBooks u) \<longrightarrow> snd (handle st r) \<noteq> st)
 \<and> snd (handle st (ListBorrowedBooks u)) = st"
  using handle_keeps_state_on_error [of st r] handle_changes_state_on_success [of st r]
  by simp

theorem all_or_nothing_witness:
  "handle lib_ready (BorrowBook (borrow_req (PInt 1) PNone))
     = (Response (Error ''userId and bookId are required.'') 400, lib_ready)
 \<and> snd (handle lib_ready (BorrowBook (borrow_req (PInt 1) (PInt 1)))) \<noteq> lib_ready
 \<and> snd (handle lib_ready (ListBorrowedBooks 1)) = lib_ready"
proof -
  let ?bad = "BorrowBook (borrow_req (PInt 1) PNone)"
  let ?good = "BorrowBook (borrow_req (PInt 1) (PInt 1))"
  have bad: "fst (handle lib_ready ?bad) = Response (Error ''userId and bookId are required.'') 400"
    by (simp add: BorrowBookView_post_def request_fields)
  then have "is_error (fst (handle lib_ready ?bad))"
    by simp
  with all_or_nothing [of lib_ready ?bad] have 1: "snd (handle lib_ready ?bad) = lib_ready"
    by blast
  have "fst (handle lib_ready ?good)
      = Response (Message (borrow_message
          \<lparr>bk_id = 1, title = PStr ''1984'', author = PStr ''Orwell'', is_borrowed = False\<rparr>
          \<lparr>usr_id = 1, name = PStr ''Alice''\<rparr>)) 200"
    by (simp add: BorrowBookView_post_def request_fields dict_get_def lib_ready_def)
  then have "\<not> is_error (fst (handle lib_ready ?good))"
    by simp
  with all_or_nothing [of lib_ready ?good] have 2: "snd (handle lib_ready ?good) \<noteq> lib_ready"
    by blast
  from all_or_nothing [of lib_ready ?good 1] have 3: "snd (handle lib_ready (ListBorrowedBooks 1)) = lib_ready"
    by blast
  from bad 1 2 3 show ?thesis
    by (metis prod.collapse snd_conv)
qed

text \<open>
  C5. When the presence check passes, the user exists and the book exists and is not borrowed,
  \<^verbatim>\<open>BorrowBookView.post\<close> answers 200 with a message that contains the book's title and the
  user's name, sets \<^verbatim>\<open>is_borrowed\<close> on that book, stores the requested user id under the
  book's id in \<^verbatim>\<open>borrowed_books\<close>, and changes no other book, no other assignment, no user
  and no counter.
\<close>

theorem borrow_effect:
  assumes "truthy (data_get data ''userId'')" and "truthy (data_get data ''bookId'')"
    and "dict_get (users st) (data_get data ''userId'') = Some usr"
    and "as_key (data_get data ''bookId'') = Some k"
    and "books st k = Some b"
    and "\<not> is_borrowed b"
  shows "\<exists>m st'. BorrowBookView_post st data = (Response (Message m) 200, st')
       \<and> sublist (py_str (title b)) m \<and> sublist (py_str (name usr)) m
       \<and> books st' k = Some (b\<lparr>is_borrowed := True\<rparr>)
       \<and> map_of (borrowed_books st') k = Some (data_get data ''userId'')
       \<and> (\<forall>k'. k' \<noteq> k \<longrightarrow> books st' k' = books st k'
                         \<and> map_of (borrowed_books st') k' = map_of (borrowed_books st) k')
       \<and> users st' = users st
       \<and> book_id_counter st' = book_id_counter st
       \<and> user_id_counter st' = user_id_counter st"
proof -
  let ?m = "borrow_message b usr"
  let ?st' = "st\<lparr>books := (books st)(k \<mapsto> b\<lparr>is_borrowed := True\<rparr>),
                  borrowed_books := dict_set (borrowed_books st) k (data_get data ''userId'')\<rparr>"
  have run: "BorrowBookView_post st data = (Response (Message ?m) 200, ?st')"
    using assms by (simp add: BorrowBookView_post_def Let_def)
  have t: "sublist (py_str (title b)) ?m"
    unfolding borrow_message_def
    by (rule sublist_appendI [of _ "''Book '' @ [CHR 0x27]", simplified append_assoc])
  have "?m = (''Book '' @ [CHR 0x27] @ py_str (title b) @ [CHR 0x27] @ '' borrowed by user ''
               @ [CHR 0x27]) @ py_str (name usr) @ ([CHR 0x27] @ ''.'')"
    by (simp add: borrow_message_def)
  then have n: "sublist (py_str (name usr)) ?m"
    by (simp only: sublist_appendI)
  show ?thesis
    using run t n by (simp add: map_of_dict_set)
qed

theorem borrow_effect_witness:
  "\<exists>st'. BorrowBookView_post lib_ready (borrow_req (PInt 1) (PInt 1))
           = (Response (Message (''Book '' @ [CHR 0x27] @ ''1984'' @ [CHR 0x27]
                 @ '' borrowed by user '' @ [CHR 0x27] @ ''Alice'' @ [CHR 0x27] @ ''.'')) 200, st')
       \<and> books st' 1 = Some \<lparr>bk_id = 1, title = PStr ''1984'', author = PStr ''Orwell'',
                               is_borrowed = True\<rparr>
       \<and> map_of (borrowed_books st') 1 = Some (PInt 1)
       \<and> users st' = users lib_ready"
proof -
  let ?b = "\<lparr>bk_id = 1, title = PStr ''1984'', author = PStr ''Orwell'', is_borrowed = False\<rparr>"
  let ?u = "\<lparr>usr_id = 1, name = PStr ''Alice''\<rparr>"
  have "\<exists>m st'. BorrowBookView_post lib_ready (borrow_req (PInt 1) (PInt 1)) = (Response (Message m) 200, st')
       \<and> sublist (py_str (title ?b)) m \<and> sublist (py_str (name ?u)) m
       \<and> books st' 1 = Some (?b\<lparr>is_borrowed := True\<rparr>)
       \<and> map_of (borrowed_books st') 1 = Some (data_get (borrow_req (PInt 1) (PInt 1)) ''userId'')
       \<and> (\<forall>k'. k' \<noteq> 1 \<longrightarrow> books st' k' = books lib_ready k'
                         \<and> map_of (borrowed_books st') k' = map_of (borrowed_books lib_ready) k')
       \<and> users st' = users lib_ready
       \<and> book_id_counter st' = book_id_counter lib_ready
       \<and> user_id_counter st' = user_id_counter lib_ready"
    by (rule borrow_effect) (simp_all add: request_fields dict_get_def lib_ready_def)
  then obtain m st' where
    r: "BorrowBookView_post lib_ready (borrow_req (PInt 1) (PInt 1)) = (Response (Message m) 200, st')"
    and s: "books st' 1 = Some (?b\<lparr>is_borrowed := True\<rparr>)"
      "map_of (borrowed_books st') 1 = Some (data_get (borrow_req (PInt 1) (PInt 1)) ''userId'')"
      "users st' = users lib_ready"
    by blast
  have "fst (BorrowBookView_post lib_ready (borrow_req (PInt 1) (PInt 1)))
      = Response (Message (''Book '' @ [CHR 0x27] @ ''1984'' @ [CHR 0x27]
                 @ '' borrowed by user '' @ [CHR 0x27] @ ''Alice'' @ [CHR 0x27] @ ''.'')) 200"
    by (simp add: BorrowBookView_post_def Let_def request_fields dict_get_def lib_ready_def
        borrow_message_def)
  with r have "m = ''Book '' @ [CHR 0x27] @ ''1984'' @ [CHR 0x27]
                 @ '' borrowed by user '' @ [CHR 0x27] @ ''Alice'' @ [CHR 0x27] @ ''.''"
    by simp
  with r s show ?thesis
    by (simp add: request_fields)
qed

text \<open>
  C6. In every state reached from the initial one, \<^verbatim>\<open>UserBorrowedBooksView.get\<close> answers 404
  "User not found." exactly when the user id is not a key of \<^verbatim>\<open>users\<close>. For an existing
  user \<open>u\<close> it answers 200 with exactly the books whose ids carry, in \<^verbatim>\<open>borrowed_books\<close>, a
  value equal to the integer \<open>u\<close>, each once; a book assigned to any other user is absent,
  the list is empty when nothing is assigned to \<open>u\<close>, and every listed book was the subject
  of a borrow request made with user id \<open>u\<close>. After a successful borrow of book \<open>k\<close> by
  user \<open>u\<close>, the listing of \<open>u\<close> holds the book stored under \<open>k\<close> exactly once and the
  listing of no other user holds it.
\<close>

theorem list_borrowed_books:
  fixes rs u
  defines "st \<equiv> serve init rs"
  shows "(UserBorrowedBooksView_get st u = Response (Error ''User not found.'') 404
            \<longleftrightarrow> users st u = None)
       \<and> (users st u \<noteq> None \<longrightarrow>
            (\<exists>xs. UserBorrowedBooksView_get st u = Response (BookList xs) 200
               \<and> set xs = {b. \<exists>k v. (k, v) \<in> set (borrowed_books st) \<and> as_key v = Some u
                                    \<and> books st k = Some b}
               \<and> (\<forall>b \<in> set xs. count_list xs b = 1)
               \<and> (\<forall>k v b. (k, v) \<in> set (borrowed_books st) \<and> as_key v \<noteq> Some u
                      \<and> books st k = Some b \<longrightarrow> b \<notin> set xs)
               \<and> ((\<forall>e \<in> set (borrowed_books st). as_key (snd e) \<noteq> Some u) \<longrightarrow> xs = [])
               \<and> (\<forall>b \<in> set xs. \<exists>data. BorrowBook data \<in> set rs
                      \<and> as_key (data_get data ''bookId'') = Some (bk_id b)
                      \<and> as_key (data_get data ''userId'') = Some u)))
       \<and> (\<forall>data m k. fst (BorrowBookView_post st data) = Response (Message m) 200
              \<and> as_key (data_get data ''userId'') = Some u
              \<and> as_key (data_get data ''bookId'') = Some k \<longrightarrow>
            (\<exists>xs b. UserBorrowedBooksView_get (snd (BorrowBookView_post st data)) u
                       = Response (BookList xs) 200
               \<and> books (snd (BorrowBookView_post st data)) k = Some b \<and> is_borrowed b
               \<and> count_list xs b = 1
               \<and> (\<forall>u' xs'. u' \<noteq> u
                      \<and> UserBorrowedBooksView_get (snd (BorrowBookView_post st data)) u'
                          = Response (BookList xs') 200 \<longrightarrow> b \<notin> set xs')))"
proof -
  have c: "consistent st"
    unfolding st_def using consistent_init by (rule consistent_serve)
  have 1: "UserBorrowedBooksView_get st u = Response (Error ''User not found.'') 404
            \<longleftrightarrow> users st u = None"
    by (auto simp: UserBorrowedBooksView_get_def split: option.splits)
  have 2: "\<exists>xs. UserBorrowedBooksView_get st u = Response (BookList xs) 200
               \<and> set xs = {b. \<exists>k v. (k, v) \<in> set (borrowed_books st) \<and> as_key v = Some u
                                    \<and> books st k = Some b}
               \<and> (\<forall>b \<in> set xs. count_list xs b = 1)
               \<and> (\<forall>k v b. (k, v) \<in> set (borrowed_books st) \<and> as_key v \<noteq> Some u
                      \<and> books st k = Some b \<longrightarrow> b \<notin> set xs)
               \<and> ((\<forall>e \<in> set (borrowed_books st). as_key (snd e) \<noteq> Some u) \<longrightarrow> xs = [])
               \<and> (\<forall>b \<in> set xs. \<exists>data. BorrowBook data \<in> set rs
                      \<and> as_key (data_get data ''bookId'') = Some (bk_id b)
                      \<and> as_key (data_get data ''userId'') = Some u)"
    if u: "users st u \<noteq> None"
  proof -
    from listing_consistent [OF c u] obtain xs where
      r: "UserBorrowedBooksView_get st u = Response (BookList xs) 200" and d: "distinct xs"
      and s: "set xs = {b. \<exists>k v. (k, v) \<in> set (borrowed_books st) \<and> as_key v = Some u
                                 \<and> books st k = Some b}"
      unfolding eq_int_def by blast
    have once: "\<forall>b \<in> set xs. count_list xs b = 1"
      using d by (simp add: count_list_distinct)
    have others: "\<forall>k v b. (k, v) \<in> set (borrowed_books st) \<and> as_key v \<noteq> Some u
                      \<and> books st k = Some b \<longrightarrow> b \<notin> set xs"
      using listing_excludes_others [OF c _ _ _ r] by blast
    have none: "(\<forall>e \<in> set (borrowed_books st). as_key (snd e) \<noteq> Some u) \<longrightarrow> xs = []"
    proof
      assume "\<forall>e \<in> set (borrowed_books st). as_key (snd e) \<noteq> Some u"
      then have "set xs = {}"
        unfolding s by fastforce
      then show "xs = []" by simp
    qed
    have prov: "\<exists>data. BorrowBook data \<in> set rs
                      \<and> as_key (data_get data ''bookId'') = Some (bk_id b)
                      \<and> as_key (data_get data ''userId'') = Some u"
      if "b \<in> set xs" for b
    proof -
      from that obtain k v where
        kv: "(k, v) \<in> set (borrowed_books st)" "as_key v = Some u" "books st k = Some b"
        unfolding s by blast
      have id: "bk_id b = k"
        using c kv(3) unfolding consistent_def by blast
      from entry_serve [of "(k, v)" init rs] kv(1)
      obtain data where "BorrowBook data \<in> set rs" "as_key (data_get data ''bookId'') = Some k"
        "data_get data ''userId'' = v"
        unfolding st_def by (auto simp: init_def)
      then show ?thesis
        using kv(2) id by blast
    qed
    show ?thesis
      using r s once others none prov by blast
  qed
  have 3: "\<exists>xs b. UserBorrowedBooksView_get (snd (BorrowBookView_post st data)) u
                       = Response (BookList xs) 200
               \<and> books (snd (BorrowBookView_post st data)) k = Some b \<and> is_borrowed b
               \<and> count_list xs b = 1
               \<and> (\<forall>u' xs'. u' \<noteq> u
                      \<and> UserBorrowedBooksView_get (snd (BorrowBookView_post st data)) u'
                          = Response (BookList xs') 200 \<longrightarrow> b \<notin> set xs')"
    if ok: "fst (BorrowBookView_post st data) = Response (Message m) 200"
      and uid: "as_key (data_get data ''userId'') = Some u"
      and bid: "as_key (data_get data ''bookId'') = Some k" for data m k
  proof -
    let ?st' = "snd (BorrowBookView_post st data)"
    from listing_after_borrow [OF c ok uid bid] obtain xs b where
      l: "UserBorrowedBooksView_get ?st' u = Response (BookList xs) 200"
        "books ?st' k = Some b" "is_borrowed b" "count_list xs b = 1"
      by blast
    have c': "consistent ?st'"
      using c by (rule consistent_borrow)
    from borrow_success [OF ok bid]
    have e: "(k, data_get data ''userId'') \<in> set (borrowed_books ?st')"
      by (auto simp: in_dict_set)
    have "b \<notin> set xs'"
      if "u' \<noteq> u" and "UserBorrowedBooksView_get ?st' u' = Response (BookList xs') 200" for u' xs'
      using listing_excludes_others [OF c' e _ l(2) that(2)] that(1) uid by simp
    then show ?thesis
      using l by blast
  qed
  show ?thesis
    using 1 2 3 by blast
qed

theorem list_borrowed_books_witness:
  "UserBorrowedBooksView_get lib_shared 5 = Response (Error ''User not found.'') 404
 \<and> UserBorrowedBooksView_get lib_shared 1
     = Response (BookList [\<lparr>bk_id = 1, title = PStr ''1984'', author = PStr ''Orwell'',
                             is_borrowed = True\<rparr>]) 200
 \<and> UserBorrowedBooksView_get lib_shared 2
     = Response (BookList [\<lparr>bk_id = 2, title = PStr ''Emma'', author = PStr ''Austen'',
                             is_borrowed = True\<rparr>]) 200
 \<and> UserBorrowedBooksView_get lib_shared 3 = Response (BookList []) 200
 \<and> (\<exists>xs b. UserBorrowedBooksView_get
               (snd (BorrowBookView_post lib_ready (borrow_req (PInt 1) (PInt 1)))) 1
                = Response (BookList xs) 200
          \<and> books (snd (BorrowBookView_post lib_ready (borrow_req (PInt 1) (PInt 1)))) 1 = Some b
          \<and> is_borrowed b \<and> count_list xs b = 1)"
proof -
  let ?ready = "[RegisterBook book_1984, RegisterUser alice]"
  let ?b1 = "\<lparr>bk_id = 1, title = PStr ''1984'', author = PStr ''Orwell'', is_borrowed = True\<rparr>"
  let ?b2 = "\<lparr>bk_id = 2, title = PStr ''Emma'', author = PStr ''Austen'', is_borrowed = True\<rparr>"
  have l: "borrowed_books lib_shared = [(1, PInt 1), (2, PInt 2)]"
    and bk: "books lib_shared 1 = Some ?b1" "books lib_shared 2 = Some ?b2"
    and us: "users lib_shared 1 \<noteq> None" "users lib_shared 2 \<noteq> None" "users lib_shared 3 \<noteq> None"
      "users lib_shared 5 = None"
    by (simp_all add: lib_shared_def)
  from list_borrowed_books [of two_borrowers 5] us(4)
  have 0: "UserBorrowedBooksView_get lib_shared 5 = Response (Error ''User not found.'') 404"
    unfolding serve_shared by blast
  from list_borrowed_books [of two_borrowers 1] us(1) obtain xs where
    xs: "UserBorrowedBooksView_get lib_shared 1 = Response (BookList xs) 200"
      "set xs = {b. \<exists>k v. (k, v) \<in> set (borrowed_books lib_shared) \<and> as_key v = Some 1
                          \<and> books lib_shared k = Some b}"
      "\<forall>b \<in> set xs. count_list xs b = 1"
    unfolding serve_shared by blast
  have "set xs = {?b1}"
    unfolding xs(2) l using bk by (auto intro!: exI [of _ 1])
  moreover have "count_list xs ?b1 = 1"
    using xs(3) calculation by simp
  ultimately have "xs = [?b1]"
    by (rule singleton_listing)
  with xs(1) have 1: "UserBorrowedBooksView_get lib_shared 1 = Response (BookList [?b1]) 200"
    by simp
  from list_borrowed_books [of two_borrowers 2] us(2) obtain ys where
    ys: "UserBorrowedBooksView_get lib_shared 2 = Response (BookList ys) 200"
      "set ys = {b. \<exists>k v. (k, v) \<in> set (borrowed_books lib_shared) \<and> as_key v = Some 2
                          \<and> books lib_shared k = Some b}"
      "\<forall>b \<in> set ys. count_list ys b = 1"
    unfolding serve_shared by blast
  have "set ys = {?b2}"
    unfolding ys(2) l using bk by (auto intro!: exI [of _ 2])
  moreover have "count_list ys ?b2 = 1"
    using ys(3) calculation by simp
  ultimately have "ys = [?b2]"
    by (rule singleton_listing)
  with ys(1) have 2: "UserBorrowedBooksView_get lib_shared 2 = Response (BookList [?b2]) 200"
    by simp
  have "\<forall>e \<in> set (borrowed_books lib_shared). as_key (snd e) \<noteq> Some 3"
    unfolding l by simp
  with list_borrowed_books [of two_borrowers 3] us(3)
  have 3: "UserBorrowedBooksView_get lib_shared 3 = Response (BookList []) 200"
    unfolding serve_shared by blast
  have "fst (BorrowBookView_post lib_ready (borrow_req (PInt 1) (PInt 1)))
      = Response (Message (borrow_message
          \<lparr>bk_id = 1, title = PStr ''1984'', author = PStr ''Orwell'', is_borrowed = False\<rparr>
          \<lparr>usr_id = 1, name = PStr ''Alice''\<rparr>)) 200
     \<and> as_key (data_get (borrow_req (PInt 1) (PInt 1)) ''userId'') = Some 1
     \<and> as_key (data_get (borrow_req (PInt 1) (PInt 1)) ''bookId'') = Some 1"
    by (simp add: BorrowBookView_post_def request_fields dict_get_def lib_ready_def)
  with list_borrowed_books [of ?ready 1]
  have 4: "\<exists>xs b. UserBorrowedBooksView_get
               (snd (BorrowBookView_post lib_ready (borrow_req (PInt 1) (PInt 1)))) 1
                = Response (BookList xs) 200
          \<and> books (snd (BorrowBookView_post lib_ready (borrow_req (PInt 1) (PInt 1)))) 1 = Some b
          \<and> is_borrowed b \<and> count_list xs b = 1"
    unfolding serve_ready by blast
  from 0 1 2 3 4 show ?thesis by blast
qed

text \<open>
  C7. Served from the initial state, the book ids in the 201 replies of \<^verbatim>\<open>BookCreateView.post\<close>
  are 1, 2, ..., one for each registration that passes the presence check, in this order,
  and likewise the user ids of \<^verbatim>\<open>UserCreateView.post\<close>. Each sequence counts only the
  registrations of its own kind, is strictly increasing, and so never repeats an id.
\<close>

theorem ids_sequential_from_one:
  "book_ids (replies init rs) = [1 .. int (length (filter valid_book rs))]
 \<and> user_ids (replies init rs) = [1 .. int (length (filter valid_user rs))]
 \<and> sorted_wrt (<) (book_ids (replies init rs))
 \<and> sorted_wrt (<) (user_ids (replies init rs))"
proof -
  have b: "book_ids (replies init rs) = [1 .. int (length (filter valid_book rs))]"
    using book_ids_replies [of init rs] by (simp add: init_def)
  have u: "user_ids (replies init rs) = [1 .. int (length (filter valid_user rs))]"
    using user_ids_replies [of init rs] by (simp add: init_def)
  show ?thesis
    unfolding b u by (simp add: sorted_wrt_upto)
qed

theorem ids_sequential_from_one_witness:
  "book_ids (replies init [RegisterBook book_1984, RegisterUser alice, RegisterBook Map.empty,
                           RegisterBook book_1984]) = [1, 2]
 \<and> user_ids (replies init [RegisterBook book_1984, RegisterUser alice, RegisterBook Map.empty,
                           RegisterBook book_1984]) = [1]"
proof -
  let ?rs = "[RegisterBook book_1984, RegisterUser alice, RegisterBook Map.empty, RegisterBook book_1984]"
  have b: "int (length (filter valid_book ?rs)) = 2"
    by (simp add: request_fields)
  have u: "int (length (filter valid_user ?rs)) = 1"
    by (simp add: request_fields)
  have l: "[1 .. 2 :: int] = [1, 2]"
    by (simp add: upto_rec1)
  from ids_sequential_from_one [of ?rs] show ?thesis
    unfolding b u l by simp
qed

text \<open>
  C8. \<^verbatim>\<open>BookCreateView.post\<close> answers 400 "Title and author are required." exactly when
  \<^verbatim>\<open>title\<close> or \<^verbatim>\<open>author\<close> fails the truth test (for a string: is absent or empty), and then
  changes nothing. Otherwise it answers 201 with a book that carries the current value of
  the counter as id, the given title and author and \<^verbatim>\<open>is_borrowed = False\<close>, stores that
  book under that id, advances the counter by one and touches nothing else.
\<close>

theorem register_book:
  fixes st data
  defines "t \<equiv> data_get data ''title''" and "a \<equiv> data_get data ''author''"
  shows "(fst (BookCreateView_post st data) = Response (Error ''Title and author are required.'') 400
            \<longleftrightarrow> \<not> truthy t \<or> \<not> truthy a)
       \<and> (\<not> truthy t \<or> \<not> truthy a \<longrightarrow> snd (BookCreateView_post st data) = st)
       \<and> (truthy t \<and> truthy a \<longrightarrow>
            (\<exists>nb st'. BookCreateView_post st data = (Response (BookJson nb) 201, st')
               \<and> nb = \<lparr>bk_id = book_id_counter st, title = t, author = a, is_borrowed = False\<rparr>
               \<and> books st' (book_id_counter st) = Some nb
               \<and> (\<forall>k. k \<noteq> book_id_counter st \<longrightarrow> books st' k = books st k)
               \<and> book_id_counter st' = book_id_counter st + 1
               \<and> users st' = users st \<and> borrowed_books st' = borrowed_books st
               \<and> user_id_counter st' = user_id_counter st))
       \<and> (\<forall>s. truthy (PStr s) \<longleftrightarrow> s \<noteq> []) \<and> \<not> truthy PNone"
  unfolding t_def a_def
  by (auto simp: BookCreateView_post_def Let_def)

theorem register_book_witness:
  "BookCreateView_post init book_1984
     = (Response (BookJson \<lparr>bk_id = 1, title = PStr ''1984'', author = PStr ''Orwell'',
                            is_borrowed = False\<rparr>) 201,
        snd (BookCreateView_post init book_1984))
 \<and> books (snd (BookCreateView_post init book_1984)) 1
     = Some \<lparr>bk_id = 1, title = PStr ''1984'', author = PStr ''Orwell'', is_borrowed = False\<rparr>
 \<and> book_id_counter (snd (BookCreateView_post init book_1984)) = 2
 \<and> BookCreateView_post init (book_1984(''author'' \<mapsto> PStr []))
     = (Response (Error ''Title and author are required.'') 400, init)
 \<and> BookCreateView_post init (book_1984(''title'' := None))
     = (Response (Error ''Title and author are required.'') 400, init)"
proof -
  have ok: "truthy (data_get book_1984 ''title'') \<and> truthy (data_get book_1984 ''author'')"
    by (simp add: request_fields)
  have c: "book_id_counter init = 1"
    by (simp add: init_def)
  have e: "\<not> truthy (data_get (book_1984(''author'' \<mapsto> PStr [])) ''author'')"
    by (simp add: data_get_def)
  have m: "\<not> truthy (data_get (book_1984(''title'' := None)) ''title'')"
    by (simp add: data_get_def)
  from register_book [of init book_1984] ok c
  have 1: "BookCreateView_post init book_1984
     = (Response (BookJson \<lparr>bk_id = 1, title = PStr ''1984'', author = PStr ''Orwell'',
                            is_borrowed = False\<rparr>) 201, snd (BookCreateView_post init book_1984))
    \<and> books (snd (BookCreateView_post init book_1984)) 1
     = Some \<lparr>bk_id = 1, title = PStr ''1984'', author = PStr ''Orwell'', is_borrowed = False\<rparr>
    \<and> book_id_counter (snd (BookCreateView_post init book_1984)) = 2"
    by (auto simp: request_fields)
  from register_book [of init "book_1984(''author'' \<mapsto> PStr [])"] e
  have 2: "BookCreateView_post init (book_1984(''author'' \<mapsto> PStr []))
     = (Response (Error ''Title and author are required.'') 400, init)"
    by (metis prod.collapse)
  from register_book [of init "book_1984(''title'' := None)"] m
  have 3: "BookCreateView_post init (book_1984(''title'' := None))
     = (Response (Error ''Title and author are required.'') 400, init)"
    by (metis prod.collapse)
  from 1 2 3 show ?thesis by simp
qed

text \<open>
  C9. Whatever requests follow, a book that has \<^verbatim>\<open>is_borrowed\<close> set keeps it set, and the
  entries of \<^verbatim>\<open>borrowed_books\<close> stay where they are, values included: later requests only
  append to them.
\<close>

theorem lifecycle_one_way:
  "(\<forall>k b. books (serve init rs) k = Some b \<and> is_borrowed b
        \<longrightarrow> (\<exists>b'. books (serve init (rs @ rs')) k = Some b' \<and> is_borrowed b'))
 \<and> prefix (borrowed_books (serve init rs)) (borrowed_books (serve init (rs @ rs')))"
  using one_way_serve [OF consistent_serve [OF consistent_init], of rs rs']
  by (auto simp: serve_append)

theorem lifecycle_one_way_witness:
  "(\<exists>b'. books (serve init
            ([RegisterBook book_1984, RegisterUser alice, BorrowBook (borrow_req (PInt 1) (PInt 1))]
             @ [RegisterBook book_1984, BorrowBook (borrow_req (PInt 1) (PInt 1))])) 1 = Some b'
        \<and> is_borrowed b')
 \<and> prefix [(1, PInt 1)]
      (borrowed_books (serve init
            ([RegisterBook book_1984, RegisterUser alice, BorrowBook (borrow_req (PInt 1) (PInt 1))]
             @ [RegisterBook book_1984, BorrowBook (borrow_req (PInt 1) (PInt 1))])))"
proof -
  let ?rs = "[RegisterBook book_1984, RegisterUser alice, BorrowBook (borrow_req (PInt 1) (PInt 1))]"
  let ?rs' = "[RegisterBook book_1984, BorrowBook (borrow_req (PInt 1) (PInt 1))]"
  let ?b = "\<lparr>bk_id = 1, title = PStr ''1984'', author = PStr ''Orwell'', is_borrowed = True\<rparr>"
  have h: "books (serve init ?rs) 1 = Some ?b \<and> is_borrowed ?b"
    unfolding serve_lent by (simp add: lib_lent_def)
  have l: "borrowed_books (serve init ?rs) = [(1, PInt 1)]"
    unfolding serve_lent by (simp add: lib_lent_def)
  from lifecycle_one_way [of ?rs ?rs'] h show ?thesis
    unfolding l by blast
qed

text \<open>
  C10. The presence check of \<^verbatim>\<open>BorrowBookView.post\<close> is a truth test, so the id 0 counts as
  missing, as do the empty string, \<^verbatim>\<open>False\<close> and an absent field: any such \<^verbatim>\<open>userId\<close> or
  \<^verbatim>\<open>bookId\<close> is answered 400 "userId and bookId are required." with the state unchanged,
  and never with a 404.
\<close>

theorem falsy_id_is_missing:
  fixes st data
  defines "user_id \<equiv> data_get data ''userId''" and "book_id \<equiv> data_get data ''bookId''"
  assumes "user_id \<in> {PInt 0, PStr [], PBool False, PNone} \<or> \<not> truthy user_id
         \<or> book_id \<in> {PInt 0, PStr [], PBool False, PNone} \<or> \<not> truthy book_id"
  shows "BorrowBookView_post st data = (Response (Error ''userId and bookId are required.'') 400, st)
       \<and> (\<forall>body. fst (BorrowBookView_post st data) \<noteq> Response body 404)"
proof -
  have "\<not> truthy user_id \<or> \<not> truthy book_id"
    using assms(3) by auto
  then show ?thesis
    unfolding user_id_def book_id_def by (simp add: BorrowBookView_post_def Let_def)
qed

theorem falsy_id_is_missing_witness:
  "BorrowBookView_post lib_ready (borrow_req (PInt 0) (PInt 1))
     = (Response (Error ''userId and bookId are required.'') 400, lib_ready)
 \<and> BorrowBookView_post lib_ready (borrow_req (PInt 1) (PInt 0))
     = (Response (Error ''userId and bookId are required.'') 400, lib_ready)
 \<and> BorrowBookView_post lib_ready (borrow_req (PStr []) (PInt 1))
     = (Response (Error ''userId and bookId are required.'') 400, lib_ready)
 \<and> (\<forall>body. fst (BorrowBookView_post lib_ready (borrow_req (PInt 0) (PInt 0))) \<noteq> Response body 404)"
  using falsy_id_is_missing [of "borrow_req (PInt 0) (PInt 1)" lib_ready]
    falsy_id_is_missing [of "borrow_req (PInt 1) (PInt 0)" lib_ready]
    falsy_id_is_missing [of "borrow_req (PStr []) (PInt 1)" lib_ready]
    falsy_id_is_missing [of "borrow_req (PInt 0) (PInt 0)" lib_ready]
  by (simp add: request_fields)

end
